theory Spec2Isabelle
  imports Main
begin

section \<open>The keyboard layout encoder of \<^verbatim>\<open>kbd_maker.py\<close>\<close>

text \<open>
  The program has one operation, \<^verbatim>\<open>create_keyboard_layout(filename, name, normal_map,
  shift_map, altgr_map=None)\<close>, with the nested helper \<^verbatim>\<open>to_byte_list\<close>. It turns three
  scan-code maps and a name into a 420-byte blob and writes the blob to a file.

  Python values are modelled as follows.
  \<^item> A \<^verbatim>\<open>str\<close> is the list of its code points (\<open>nat\<close>); \<^verbatim>\<open>len\<close> counts code points and
    \<^verbatim>\<open>ord\<close> of a one-character string is its only element.
  \<^item> An \<^verbatim>\<open>int\<close> is an \<open>int\<close>. A \<^verbatim>\<open>bool\<close> is an \<^verbatim>\<open>int\<close> for \<^verbatim>\<open>isinstance\<close>, so it
    is the entry \<open>PInt 0\<close> or \<open>PInt 1\<close>.
  \<^item> A \<^verbatim>\<open>bytes\<close> object is the list of its byte values, each in \<open>0..255\<close>.
  \<^item> A map entry is a string, an integer, or a value of any other kind.
\<close>

type_synonym pystr = "nat list"

datatype elem = PStr pystr | PInt int | POther

text \<open>
  Every \<^verbatim>\<open>raise\<close> is a value. The four \<^verbatim>\<open>ValueError\<close>s of \<^verbatim>\<open>to_byte_list\<close> carry the
  offending entry, as their messages do:
  \<^item> \<open>InvalidElement (PStr x)\<close>: line 28, a string whose length is not 1;
  \<^item> \<open>OutOfRange (PStr x)\<close>: line 32, a character whose byte value exceeds 255;
  \<^item> \<open>OutOfRange (PInt x)\<close>: line 36, an integer outside \<open>0..255\<close>;
  \<^item> \<open>InvalidElement POther\<close>: line 39, an entry that is neither \<^verbatim>\<open>str\<close> nor \<^verbatim>\<open>int\<close>.

  The library calls raise as well: \<open>NameEncodingError\<close> is the \<^verbatim>\<open>UnicodeEncodeError\<close> of
  \<^verbatim>\<open>name.encode('ascii')\<close>, \<open>BytesRangeError\<close> the \<^verbatim>\<open>ValueError\<close> of \<^verbatim>\<open>bytes(...)\<close> on a
  value outside \<open>0..255\<close>, \<open>StructError\<close> the \<^verbatim>\<open>struct.error\<close> of \<^verbatim>\<open>struct.pack('<I', v)\<close>
  on a value outside \<open>0..2^32-1\<close>, and \<open>OSError\<close> the failure of \<^verbatim>\<open>open(filename, 'wb')\<close>.
\<close>

datatype error =
    InvalidElement elem
  | OutOfRange elem
  | NameEncodingError
  | BytesRangeError
  | StructError
  | OSError

subsection \<open>\<^verbatim>\<open>to_byte_list\<close> (lines 9 to 41)\<close>

text \<open>
  The dictionary \<^verbatim>\<open>special_chars\<close> of lines 11 to 22. Its keys are one-character strings:
  U+20AC, U+00F1, U+00E7, U+00D1, U+00C7, U+00B7, U+00BF, U+00A1, U+00B4, U+00A8.
\<close>

definition special_chars :: "pystr \<Rightarrow> int option" where
  "special_chars = map_of
     [([0x20AC], 0x80),
      ([0xF1], 0xF1),
      ([0xE7], 0xE7),
      ([0xD1], 0xD1),
      ([0xC7], 0xC7),
      ([0xB7], 0xB7),
      ([0xBF], 0xBF),
      ([0xA1], 0xA1),
      ([0xB4], 0xB4),
      ([0xA8], 0xA8)]"

text \<open>
  The body of the \<^verbatim>\<open>for\<close> loop, lines 26 to 39: the value appended to \<^verbatim>\<open>bytes_list\<close>
  for the entry \<open>x\<close>, or the error raised. \<^verbatim>\<open>special_chars.get(x, ord(x))\<close> is the table
  value when \<open>x\<close> is a key and the code point otherwise.
\<close>

fun elem_byte :: "elem \<Rightarrow> error + int" where
  "elem_byte (PStr x) =
     (case x of
        [c] \<Rightarrow>
          (let byte_val = (case special_chars x of Some v \<Rightarrow> v | None \<Rightarrow> int c)
           in if byte_val > 255 then Inl (OutOfRange (PStr x)) else Inr byte_val)
      | _ \<Rightarrow> Inl (InvalidElement (PStr x)))"
| "elem_byte (PInt x) =
     (if x < 0 \<or> x > 255 then Inl (OutOfRange (PInt x)) else Inr x)"
| "elem_byte POther = Inl (InvalidElement POther)"

text \<open>The loop of lines 24 to 39; the second argument is \<^verbatim>\<open>bytes_list\<close> so far.\<close>

fun to_byte_loop :: "elem list \<Rightarrow> int list \<Rightarrow> error + int list" where
  "to_byte_loop [] bytes_list = Inr bytes_list"
| "to_byte_loop (x # lst) bytes_list =
     (case elem_byte x of
        Inl e \<Rightarrow> Inl e
      | Inr byte_val \<Rightarrow> to_byte_loop lst (bytes_list @ [byte_val]))"

text \<open>Line 41: \<^verbatim>\<open>(bytes_list + [0]*128)[:128]\<close>.\<close>

definition to_byte_list :: "elem list \<Rightarrow> error + int list" where
  "to_byte_list lst =
     (case to_byte_loop lst [] of
        Inl e \<Rightarrow> Inl e
      | Inr bytes_list \<Rightarrow> Inr (take 128 (bytes_list @ replicate 128 0)))"

subsection \<open>Library calls\<close>

text \<open>\<^verbatim>\<open>bytes(l)\<close> for a list of integers.\<close>

definition py_bytes :: "int list \<Rightarrow> error + int list" where
  "py_bytes l = (if list_all (\<lambda>b. 0 \<le> b \<and> b < 256) l then Inr l else Inl BytesRangeError)"

text \<open>\<^verbatim>\<open>s.encode('ascii')\<close>: every code point must be below 128.\<close>

definition encode_ascii :: "pystr \<Rightarrow> error + int list" where
  "encode_ascii s = (if list_all (\<lambda>c. c < 128) s then Inr (map int s) else Inl NameEncodingError)"

text \<open>\<^verbatim>\<open>struct.pack('<I', v)\<close>: four bytes, least significant first.\<close>

definition struct_pack_le_I :: "int \<Rightarrow> error + int list" where
  "struct_pack_le_I v =
     (if v < 0 \<or> 4294967296 \<le> v then Inl StructError
      else Inr [v mod 256, v div 256 mod 256, v div 65536 mod 256, v div 16777216 mod 256])"

subsection \<open>\<^verbatim>\<open>create_keyboard_layout\<close> (lines 4 to 61)\<close>

text \<open>
  Line 46. An absent map (\<^verbatim>\<open>None\<close>) and an empty list are both false in the condition
  \<^verbatim>\<open>if altgr_map\<close>; then the region is \<^verbatim>\<open>bytes([0]*128)\<close>.
\<close>

definition altgr_bytes :: "elem list option \<Rightarrow> error + int list" where
  "altgr_bytes altgr_map =
     (case altgr_map of
        None \<Rightarrow> py_bytes (replicate 128 0)
      | Some m \<Rightarrow>
          if m = [] then py_bytes (replicate 128 0)
          else (case to_byte_list m of Inl e \<Rightarrow> Inl e | Inr l \<Rightarrow> py_bytes l))"

text \<open>Line 49.\<close>

definition magic :: int where
  "magic = 0x4B424C59"

text \<open>
  Lines 52 and 53: \<^verbatim>\<open>name.encode('ascii')[:31] + b'\0'\<close>, then zero bytes up to length 32.
  A negative repeat count gives the empty byte string, as the subtraction on \<open>nat\<close> does.
\<close>

definition name_bytes :: "pystr \<Rightarrow> error + int list" where
  "name_bytes name =
     (case encode_ascii name of
        Inl e \<Rightarrow> Inl e
      | Inr enc \<Rightarrow>
          (let nb = take 31 enc @ [0]
           in Inr (nb @ replicate (32 - length nb) 0)))"

text \<open>
  Lines 44 to 56: the value of \<^verbatim>\<open>data\<close>, in the order the statements run: the normal map,
  the shift map, the altgr map, the name, and the packing.
\<close>

definition layout_data ::
  "pystr \<Rightarrow> elem list \<Rightarrow> elem list \<Rightarrow> elem list option \<Rightarrow> error + int list" where
  "layout_data name normal_map shift_map altgr_map =
     (case to_byte_list normal_map of Inl e \<Rightarrow> Inl e | Inr nl \<Rightarrow>
     (case py_bytes nl of Inl e \<Rightarrow> Inl e | Inr normal_b \<Rightarrow>
     (case to_byte_list shift_map of Inl e \<Rightarrow> Inl e | Inr sl \<Rightarrow>
     (case py_bytes sl of Inl e \<Rightarrow> Inl e | Inr shift_b \<Rightarrow>
     (case altgr_bytes altgr_map of Inl e \<Rightarrow> Inl e | Inr altgr_b \<Rightarrow>
     (case name_bytes name of Inl e \<Rightarrow> Inl e | Inr name_b \<Rightarrow>
     (case struct_pack_le_I magic of Inl e \<Rightarrow> Inl e | Inr magic_b \<Rightarrow>
        Inr (magic_b @ name_b @ normal_b @ shift_b @ altgr_b))))))))"

text \<open>
  The world the call acts on: the contents of the files, which paths \<^verbatim>\<open>open(_, 'wb')\<close>
  can open, and the lines printed. The line of line 61 is kept as its three arguments:
  the name, the file name and \<^verbatim>\<open>len(data)\<close>.
\<close>

record world =
  files :: "pystr \<Rightarrow> int list option"
  writable :: "pystr \<Rightarrow> bool"
  stdout :: "(pystr \<times> pystr \<times> nat) list"

text \<open>
  The whole call. Nothing touches the world before line 58, so an error raised by
  lines 44 to 56 leaves it as it was.
\<close>

definition create_keyboard_layout ::
  "world \<Rightarrow> pystr \<Rightarrow> pystr \<Rightarrow> elem list \<Rightarrow> elem list \<Rightarrow> elem list option
     \<Rightarrow> world \<times> (error + unit)" where
  "create_keyboard_layout w filename name normal_map shift_map altgr_map =
     (case layout_data name normal_map shift_map altgr_map of
        Inl e \<Rightarrow> (w, Inl e)
      | Inr data \<Rightarrow>
          if \<not> writable w filename then (w, Inl OSError)
          else (w\<lparr>files := (files w)(filename \<mapsto> data),
                  stdout := stdout w @ [(name, filename, length data)]\<rparr>, Inr ()))"

section \<open>Properties of the encoder\<close>

subsection \<open>Resolving one entry\<close>

lemma special_chars_cases:
  "special_chars x = Some v \<Longrightarrow>
     (x, v) \<in> set [([0x20AC], 0x80), ([0xF1], 0xF1), ([0xE7], 0xE7), ([0xD1], 0xD1),
                   ([0xC7], 0xC7), ([0xB7], 0xB7), ([0xBF], 0xBF), ([0xA1], 0xA1),
                   ([0xB4], 0xB4), ([0xA8], 0xA8)]"
  unfolding special_chars_def by (rule map_of_SomeD)

lemma special_chars_range:
  assumes "special_chars x = Some v"
  shows "length x = 1 \<and> 0 \<le> v \<and> v \<le> 255"
  using special_chars_cases [OF assms] by auto

lemma elem_byte_range:
  assumes "elem_byte x = Inr b"
  shows "0 \<le> b \<and> b \<le> 255"
proof (cases x)
  case (PStr s)
  with assms show ?thesis
    by (auto simp: Let_def split: list.splits option.splits if_splits
             dest: special_chars_range)
next
  case (PInt n)
  with assms show ?thesis by (auto split: if_splits)
next
  case POther
  with assms show ?thesis by simp
qed

subsection \<open>The loop and \<^verbatim>\<open>to_byte_list\<close>\<close>

text \<open>
  The loop succeeds exactly when every entry resolves, and then appends the resolved bytes;
  it fails with the error of the first entry that does not resolve.
\<close>

lemma to_byte_loop_Inr_iff:
  "to_byte_loop lst acc = Inr r \<longleftrightarrow> (\<exists>bs. map elem_byte lst = map Inr bs \<and> r = acc @ bs)"
proof (induction lst arbitrary: acc)
  case Nil
  show ?case by auto
next
  case (Cons x lst)
  show ?case
  proof (cases "elem_byte x")
    case (Inl e)
    then show ?thesis by (auto simp: map_eq_Cons_conv)
  next
    case (Inr b)
    then show ?thesis by (auto simp: Cons.IH map_eq_Cons_conv)
  qed
qed

lemma to_byte_loop_first_error:
  assumes "map elem_byte xs = map Inr bs" and "elem_byte x = Inl e"
  shows "to_byte_loop (xs @ x # ys) acc = Inl e"
  using assms
proof (induction xs arbitrary: acc bs)
  case Nil
  then show ?case by simp
next
  case (Cons a xs)
  then obtain b bs' where "bs = b # bs'" "elem_byte a = Inr b" "map elem_byte xs = map Inr bs'"
    by (auto simp: map_eq_Cons_conv)
  with Cons show ?case by simp
qed

lemma to_byte_loop_Inl_split:
  assumes "to_byte_loop lst acc = Inl e"
  shows "\<exists>xs x ys bs. lst = xs @ x # ys \<and> map elem_byte xs = map Inr bs \<and> elem_byte x = Inl e"
  using assms
proof (induction lst arbitrary: acc)
  case Nil
  then show ?case by simp
next
  case (Cons a lst)
  show ?case
  proof (cases "elem_byte a")
    case (Inl e')
    with Cons.prems have "e' = e" by simp
    with Inl have "a # lst = [] @ a # lst \<and> map elem_byte [] = map Inr [] \<and> elem_byte a = Inl e"
      by simp
    then show ?thesis by blast
  next
    case (Inr b)
    with Cons.prems have "to_byte_loop lst (acc @ [b]) = Inl e" by simp
    from Cons.IH [OF this] obtain xs x ys bs where
      "lst = xs @ x # ys" "map elem_byte xs = map Inr bs" "elem_byte x = Inl e"
      by blast
    with Inr have "a # lst = (a # xs) @ x # ys \<and>
        map elem_byte (a # xs) = map Inr (b # bs) \<and> elem_byte x = Inl e"
      by simp
    then show ?thesis by blast
  qed
qed

lemma to_byte_loop_Inl_iff:
  "to_byte_loop lst acc = Inl e \<longleftrightarrow>
     (\<exists>xs x ys bs. lst = xs @ x # ys \<and> map elem_byte xs = map Inr bs \<and> elem_byte x = Inl e)"
  using to_byte_loop_Inl_split to_byte_loop_first_error by blast

lemma to_byte_list_Inr_iff:
  "to_byte_list lst = Inr r \<longleftrightarrow>
     (\<exists>bs. map elem_byte lst = map Inr bs \<and> r = take 128 (bs @ replicate 128 0))"
proof (cases "to_byte_loop lst []")
  case (Inl e)
  then have "\<not> (\<exists>bs. map elem_byte lst = map Inr bs)"
    using to_byte_loop_Inr_iff [of lst "[]"] by auto
  with Inl show ?thesis by (auto simp: to_byte_list_def)
next
  case (Inr bl)
  then have "map elem_byte lst = map Inr bl"
    using to_byte_loop_Inr_iff [of lst "[]" bl] by auto
  moreover have "\<And>bs. map elem_byte lst = map Inr bs \<Longrightarrow> bs = bl"
    using Inr to_byte_loop_Inr_iff [of lst "[]"] by auto
  ultimately show ?thesis using Inr by (auto simp: to_byte_list_def)
qed

lemma to_byte_list_Inl_iff:
  "to_byte_list lst = Inl e \<longleftrightarrow>
     (\<exists>xs x ys bs. lst = xs @ x # ys \<and> map elem_byte xs = map Inr bs \<and> elem_byte x = Inl e)"
proof (cases "to_byte_loop lst []")
  case (Inl e')
  then show ?thesis
    using to_byte_loop_Inl_iff [of lst "[]" e] by (simp add: to_byte_list_def)
next
  case (Inr bl)
  then show ?thesis
    using to_byte_loop_Inl_iff [of lst "[]" e] by (simp add: to_byte_list_def)
qed

lemma resolved_range:
  assumes "map elem_byte lst = map Inr bs"
  shows "\<forall>b \<in> set bs. 0 \<le> b \<and> b \<le> 255"
proof
  fix b assume "b \<in> set bs"
  then obtain i where i: "i < length bs" "bs ! i = b" by (auto simp: in_set_conv_nth)
  from assms have len: "length lst = length bs" by (metis length_map)
  from assms i len have "elem_byte (lst ! i) = Inr b"
    by (metis nth_map)
  then show "0 \<le> b \<and> b \<le> 255" by (rule elem_byte_range)
qed

lemma to_byte_list_length:
  "to_byte_list lst = Inr r \<Longrightarrow> length r = 128"
  by (auto simp: to_byte_list_Inr_iff)

lemma to_byte_list_range:
  assumes "to_byte_list lst = Inr r"
  shows "\<forall>b \<in> set r. 0 \<le> b \<and> b \<le> 255"
proof -
  from assms obtain bs where bs: "map elem_byte lst = map Inr bs"
    and r: "r = take 128 (bs @ replicate 128 0)"
    by (auto simp: to_byte_list_Inr_iff)
  have "set r \<subseteq> set bs \<union> {0}"
    unfolding r using set_take_subset [of 128 "bs @ replicate 128 0"] by auto
  with resolved_range [OF bs] show ?thesis by auto
qed

subsection \<open>The library calls and the name field\<close>

lemma py_bytes_to_byte_list:
  "to_byte_list lst = Inr r \<Longrightarrow> py_bytes r = Inr r"
  using to_byte_list_range [of lst r] by (auto simp: py_bytes_def list_all_iff)

lemma py_bytes_zeros: "py_bytes (replicate n 0) = Inr (replicate n 0)"
  by (simp add: py_bytes_def list_all_iff)

lemma struct_pack_magic: "struct_pack_le_I magic = Inr [0x59, 0x4C, 0x42, 0x4B]"
  by (simp add: struct_pack_le_I_def magic_def)

lemma name_field_padding:
  "(take 31 enc @ [0 :: int]) @ replicate (32 - length (take 31 enc @ [0])) 0 =
     take 31 enc @ replicate (32 - length (take 31 enc)) 0"
proof -
  have "length (take 31 enc) \<le> 31" by simp
  then have "32 - length (take 31 enc) = Suc (32 - length (take 31 enc @ [0 :: int]))"
    by simp
  then show ?thesis by (simp only: replicate_Suc append_Cons append_Nil append_assoc)
qed

lemma name_bytes_Inr_iff:
  "name_bytes name = Inr nb \<longleftrightarrow>
     (\<forall>c \<in> set name. c < 128) \<and>
     nb = map int (take 31 name) @ replicate (32 - length (take 31 name)) 0"
proof (cases "\<forall>c \<in> set name. c < 128")
  case True
  then have "name_bytes name =
      Inr ((take 31 (map int name) @ [0]) @
           replicate (32 - length (take 31 (map int name) @ [0 :: int])) 0)"
    by (simp add: name_bytes_def encode_ascii_def Let_def list_all_iff)
  also have "\<dots> = Inr (take 31 (map int name) @ replicate (32 - length (take 31 (map int name))) 0)"
    by (simp only: name_field_padding)
  also have "\<dots> = Inr (map int (take 31 name) @ replicate (32 - length (take 31 name)) 0)"
    by (simp add: take_map)
  finally show ?thesis using True by auto
next
  case False
  then show ?thesis by (auto simp: name_bytes_def encode_ascii_def list_all_iff)
qed

lemma name_bytes_Inl_iff:
  "name_bytes name = Inl e \<longleftrightarrow> (\<exists>c \<in> set name. 128 \<le> c) \<and> e = NameEncodingError"
  by (auto simp: name_bytes_def encode_ascii_def Let_def not_less list_all_iff)

lemma name_bytes_length: "name_bytes name = Inr nb \<Longrightarrow> length nb = 32"
  by (auto simp: name_bytes_Inr_iff)

subsection \<open>The altgr region\<close>

lemma altgr_bytes_None: "altgr_bytes None = Inr (replicate 128 0)"
  by (simp add: altgr_bytes_def py_bytes_zeros)

lemma to_byte_list_Nil: "to_byte_list [] = Inr (replicate 128 0)"
  by (simp add: to_byte_list_def)

lemma altgr_bytes_Some: "altgr_bytes (Some m) = to_byte_list m"
proof (cases "to_byte_list m")
  case (Inl e)
  then have "m \<noteq> []" using to_byte_list_Nil by auto
  with Inl show ?thesis by (simp add: altgr_bytes_def)
next
  case (Inr l)
  then show ?thesis
    using py_bytes_to_byte_list [OF Inr] to_byte_list_Nil
    by (auto simp: altgr_bytes_def py_bytes_zeros)
qed

lemma altgr_bytes_length: "altgr_bytes a = Inr ab \<Longrightarrow> length ab = 128"
  by (cases a) (auto simp: altgr_bytes_None altgr_bytes_Some to_byte_list_length)

lemma altgr_bytes_range:
  "altgr_bytes a = Inr ab \<Longrightarrow> \<forall>b \<in> set ab. 0 \<le> b \<and> b \<le> 255"
  using to_byte_list_range by (cases a) (auto simp: altgr_bytes_None altgr_bytes_Some)

subsection \<open>The packed data\<close>

lemma layout_data_normal_error:
  "to_byte_list normal_map = Inl e \<Longrightarrow>
     layout_data name normal_map shift_map altgr_map = Inl e"
  by (simp add: layout_data_def)

lemma layout_data_shift_error:
  "to_byte_list normal_map = Inr nb \<Longrightarrow> to_byte_list shift_map = Inl e \<Longrightarrow>
     layout_data name normal_map shift_map altgr_map = Inl e"
  by (simp add: layout_data_def py_bytes_to_byte_list)

lemma layout_data_altgr_error:
  "to_byte_list normal_map = Inr nb \<Longrightarrow> to_byte_list shift_map = Inr sb \<Longrightarrow>
   altgr_bytes altgr_map = Inl e \<Longrightarrow>
     layout_data name normal_map shift_map altgr_map = Inl e"
  by (simp add: layout_data_def py_bytes_to_byte_list)

lemma layout_data_name_error:
  "to_byte_list normal_map = Inr nb \<Longrightarrow> to_byte_list shift_map = Inr sb \<Longrightarrow>
   altgr_bytes altgr_map = Inr ab \<Longrightarrow> name_bytes name = Inl e \<Longrightarrow>
     layout_data name normal_map shift_map altgr_map = Inl e"
  by (simp add: layout_data_def py_bytes_to_byte_list)

lemma layout_data_success:
  "to_byte_list normal_map = Inr nb \<Longrightarrow> to_byte_list shift_map = Inr sb \<Longrightarrow>
   altgr_bytes altgr_map = Inr ab \<Longrightarrow> name_bytes name = Inr nm \<Longrightarrow>
     layout_data name normal_map shift_map altgr_map =
       Inr ([0x59, 0x4C, 0x42, 0x4B] @ nm @ nb @ sb @ ab)"
  by (simp add: layout_data_def py_bytes_to_byte_list struct_pack_magic)

lemma layout_data_Inr_iff:
  "layout_data name normal_map shift_map altgr_map = Inr d \<longleftrightarrow>
     (\<exists>nm nb sb ab.
        to_byte_list normal_map = Inr nb \<and> to_byte_list shift_map = Inr sb \<and>
        altgr_bytes altgr_map = Inr ab \<and> name_bytes name = Inr nm \<and>
        d = [0x59, 0x4C, 0x42, 0x4B] @ nm @ nb @ sb @ ab)"
proof (cases "to_byte_list normal_map")
  case (Inl e)
  then show ?thesis using layout_data_normal_error [OF Inl] by simp
next
  case nb: (Inr nb)
  show ?thesis
  proof (cases "to_byte_list shift_map")
    case (Inl e)
    then show ?thesis using layout_data_shift_error [OF nb Inl] by simp
  next
    case sb: (Inr sb)
    show ?thesis
    proof (cases "altgr_bytes altgr_map")
      case (Inl e)
      then show ?thesis using layout_data_altgr_error [OF nb sb Inl] by simp
    next
      case ab: (Inr ab)
      show ?thesis
      proof (cases "name_bytes name")
        case (Inl e)
        then show ?thesis using layout_data_name_error [OF nb sb ab Inl] by simp
      next
        case nm: (Inr nm)
        show ?thesis using layout_data_success [OF nb sb ab nm] nb sb ab nm by auto
      qed
    qed
  qed
qed

lemma create_keyboard_layout_error:
  "layout_data name normal_map shift_map altgr_map = Inl e \<Longrightarrow>
     create_keyboard_layout w filename name normal_map shift_map altgr_map = (w, Inl e)"
  by (simp add: create_keyboard_layout_def)

lemma create_keyboard_layout_written:
  "layout_data name normal_map shift_map altgr_map = Inr d \<Longrightarrow> writable w filename \<Longrightarrow>
     create_keyboard_layout w filename name normal_map shift_map altgr_map =
       (w\<lparr>files := (files w)(filename \<mapsto> d),
          stdout := stdout w @ [(name, filename, length d)]\<rparr>, Inr ())"
  by (simp add: create_keyboard_layout_def)

lemma all_resolve_map:
  "(\<forall>x \<in> set lst. \<exists>b. elem_byte x = Inr b) \<longleftrightarrow> (\<exists>bs. map elem_byte lst = map Inr bs)"
proof (induction lst)
  case Nil
  show ?case by simp
next
  case (Cons a lst)
  show ?case
  proof
    assume h: "\<forall>x \<in> set (a # lst). \<exists>b. elem_byte x = Inr b"
    then obtain b where b: "elem_byte a = Inr b" by auto
    from h Cons obtain bs where "map elem_byte lst = map Inr bs" by auto
    with b have "map elem_byte (a # lst) = map Inr (b # bs)" by simp
    then show "\<exists>bs. map elem_byte (a # lst) = map Inr bs" by blast
  next
    assume "\<exists>bs. map elem_byte (a # lst) = map Inr bs"
    then obtain bs where "map elem_byte (a # lst) = map Inr bs" by blast
    then obtain b bs' where "elem_byte a = Inr b" "map elem_byte lst = map Inr bs'"
      by (auto simp: map_eq_Cons_conv)
    with Cons show "\<forall>x \<in> set (a # lst). \<exists>b. elem_byte x = Inr b" by auto
  qed
qed

lemma to_byte_list_total:
  "(\<forall>x \<in> set lst. \<exists>b. elem_byte x = Inr b) \<longleftrightarrow> (\<exists>r. to_byte_list lst = Inr r)"
  by (auto simp: all_resolve_map to_byte_list_Inr_iff)

subsection \<open>The regions of the output\<close>

lemma layout_data_regions:
  assumes "layout_data name normal_map shift_map altgr_map = Inr d"
  shows "\<exists>nm nb sb ab.
           name_bytes name = Inr nm \<and> to_byte_list normal_map = Inr nb \<and>
           to_byte_list shift_map = Inr sb \<and> altgr_bytes altgr_map = Inr ab \<and>
           length d = 420 \<and> take 4 d = [0x59, 0x4C, 0x42, 0x4B] \<and>
           take 32 (drop 4 d) = nm \<and> take 128 (drop 36 d) = nb \<and>
           take 128 (drop 164 d) = sb \<and> take 128 (drop 292 d) = ab \<and>
           drop 292 d = ab"
proof -
  from assms obtain nm nb sb ab where
    nm: "name_bytes name = Inr nm" and nb: "to_byte_list normal_map = Inr nb" and
    sb: "to_byte_list shift_map = Inr sb" and ab: "altgr_bytes altgr_map = Inr ab" and
    d: "d = [0x59, 0x4C, 0x42, 0x4B] @ nm @ nb @ sb @ ab"
    by (auto simp: layout_data_Inr_iff)
  have len: "length nm = 32" "length nb = 128" "length sb = 128" "length ab = 128"
    using name_bytes_length [OF nm] to_byte_list_length [OF nb] to_byte_list_length [OF sb]
      altgr_bytes_length [OF ab] by simp_all
  have "length d = 420" using len d by simp
  moreover have "take 4 d = [0x59, 0x4C, 0x42, 0x4B]" using d by simp
  moreover have "take 32 (drop 4 d) = nm" using d len by simp
  moreover have "take 128 (drop 36 d) = nb" using d len by simp
  moreover have "take 128 (drop 164 d) = sb" using d len by simp
  moreover have "take 128 (drop 292 d) = ab" using d len by simp
  moreover have "drop 292 d = ab" using d len by simp
  ultimately show ?thesis using nm nb sb ab by blast
qed

lemma to_byte_list_shape:
  assumes "to_byte_list m = Inr r"
  shows "\<exists>bs. map elem_byte m = map Inr bs \<and>
           r = take 128 bs @ replicate (128 - length m) 0"
proof -
  from assms obtain bs where bs: "map elem_byte m = map Inr bs"
    and r: "r = take 128 (bs @ replicate 128 0)"
    by (auto simp: to_byte_list_Inr_iff)
  from bs have "length m = length bs" by (metis length_map)
  with r have "r = take 128 bs @ replicate (128 - length m) 0" by simp
  with bs show ?thesis by blast
qed

lemma supplied_map_region:
  assumes d: "layout_data name normal_map shift_map altgr_map = Inr d"
    and m: "(m, off) \<in> set ([(normal_map, 36), (shift_map, 164)] @
              (case altgr_map of None \<Rightarrow> [] | Some a \<Rightarrow> [(a, 292)]))"
  shows "\<exists>bs. map elem_byte m = map Inr bs \<and> length bs = length m \<and>
           off + 128 \<le> length d \<and>
           take 128 (drop off d) = take 128 bs @ replicate (128 - length m) 0"
proof -
  from layout_data_regions [OF d] obtain nb sb ab where
    nb: "to_byte_list normal_map = Inr nb" and sb: "to_byte_list shift_map = Inr sb" and
    ab: "altgr_bytes altgr_map = Inr ab" and len: "length d = 420" and
    rn: "take 128 (drop 36 d) = nb" and rs: "take 128 (drop 164 d) = sb" and
    ra: "take 128 (drop 292 d) = ab"
    by blast
  have "\<exists>r. to_byte_list m = Inr r \<and> take 128 (drop off d) = r \<and> off + 128 \<le> length d"
  proof (cases "(m, off) = (normal_map, 36)")
    case True
    with nb rn len show ?thesis by simp
  next
    case n: False
    show ?thesis
    proof (cases "(m, off) = (shift_map, 164)")
      case True
      with sb rs len show ?thesis by simp
    next
      case False
      with n m have a: "altgr_map = Some m" and off: "off = 292"
        by (auto split: option.splits)
      from ab a have "to_byte_list m = Inr ab" by (simp add: altgr_bytes_Some)
      moreover from ra off have "take 128 (drop off d) = ab" by (simp only:)
      moreover from len off have "off + 128 \<le> length d" by simp
      ultimately show ?thesis by blast
    qed
  qed
  then obtain r where r: "to_byte_list m = Inr r" and reg: "take 128 (drop off d) = r"
    and bound: "off + 128 \<le> length d" by blast
  from to_byte_list_shape [OF r] obtain bs where bs: "map elem_byte m = map Inr bs"
    and shape: "r = take 128 bs @ replicate (128 - length m) 0" by blast
  from bs have "length bs = length m" by (metis length_map)
  with bs bound reg shape show ?thesis by blast
qed

lemma supplied_map_entry:
  assumes d: "layout_data name normal_map shift_map altgr_map = Inr d"
    and m: "(m, off) \<in> set ([(normal_map, 36), (shift_map, 164)] @
              (case altgr_map of None \<Rightarrow> [] | Some a \<Rightarrow> [(a, 292)]))"
    and i: "i < length m" "i < 128"
  shows "elem_byte (m ! i) = Inr (d ! (off + i))"
proof -
  from supplied_map_region [OF d m] obtain bs where bs: "map elem_byte m = map Inr bs"
    and lm: "length bs = length m" and bound: "off + 128 \<le> length d"
    and reg: "take 128 (drop off d) = take 128 bs @ replicate (128 - length m) 0"
    by blast
  from i bound have "d ! (off + i) = take 128 (drop off d) ! i" by simp
  also have "\<dots> = bs ! i" using reg i lm by (simp add: nth_append)
  finally have "d ! (off + i) = bs ! i" .
  moreover from bs i lm have "elem_byte (m ! i) = Inr (bs ! i)" by (metis nth_map)
  ultimately show ?thesis by simp
qed

subsection \<open>The call and sample inputs\<close>

lemma create_keyboard_layout_Inr:
  assumes "create_keyboard_layout w filename name normal_map shift_map altgr_map = (w', Inr u)"
  shows "\<exists>d. layout_data name normal_map shift_map altgr_map = Inr d \<and> writable w filename \<and>
           w' = w\<lparr>files := (files w)(filename \<mapsto> d),
                   stdout := stdout w @ [(name, filename, length d)]\<rparr>"
  using assms by (auto simp: create_keyboard_layout_def split: sum.splits if_splits)

lemma sample_maps:
  "to_byte_list [PStr [241], PInt 7] = Inr ([241, 7] @ replicate 126 0)"
  "to_byte_list [PStr [65]] = Inr (65 # replicate 127 0)"
  "to_byte_list [PStr [8364]] = Inr (128 # replicate 127 0)"
  by (simp_all add: to_byte_list_def special_chars_def)

lemma sample_name: "name_bytes [69, 83] = Inr ([69, 83] @ replicate 30 0)"
  by (simp add: name_bytes_Inr_iff)

subsection \<open>The order of the errors\<close>

lemma to_byte_loop_append:
  "to_byte_loop (a @ b) acc =
     (case to_byte_loop a acc of Inl e \<Rightarrow> Inl e | Inr r \<Rightarrow> to_byte_loop b r)"
proof (induction a arbitrary: acc)
  case Nil
  show ?case by simp
next
  case (Cons x a)
  show ?case by (cases "elem_byte x") (simp_all add: Cons.IH)
qed

lemma to_byte_loop_error_acc:
  "to_byte_loop lst acc = Inl e \<Longrightarrow> to_byte_loop lst acc' = Inl e"
  by (simp add: to_byte_loop_Inl_iff)

lemma to_byte_list_Inl_loop:
  "to_byte_list lst = Inl e \<longleftrightarrow> to_byte_loop lst acc = Inl e"
  by (simp add: to_byte_list_Inl_iff to_byte_loop_Inl_iff)

lemma to_byte_list_Inr_loop:
  "to_byte_loop lst acc = Inr r \<Longrightarrow> \<exists>r'. to_byte_list lst = Inr r'"
  by (auto simp: to_byte_loop_Inr_iff to_byte_list_Inr_iff)

lemma elem_byte_error_kind:
  assumes "elem_byte x = Inl e"
  shows "e = InvalidElement x \<or> e = OutOfRange x"
proof (cases x)
  case (PStr s)
  with assms show ?thesis
    by (auto simp: Let_def split: list.splits if_splits)
next
  case (PInt n)
  with assms show ?thesis by (auto split: if_splits)
next
  case POther
  with assms show ?thesis by simp
qed

text \<open>
  The three maps are resolved in the order normal, shift, altgr, and the first entry that
  does not resolve decides the error of the call.
\<close>

lemma layout_data_maps_error:
  assumes "to_byte_loop (normal_map @ shift_map @
             (case altgr_map of None \<Rightarrow> [] | Some a \<Rightarrow> a)) acc = Inl e"
  shows "layout_data name normal_map shift_map altgr_map = Inl e"
proof (cases "to_byte_loop normal_map acc")
  case (Inl e')
  with assms have "e' = e" by (simp add: to_byte_loop_append)
  with Inl have "to_byte_list normal_map = Inl e" using to_byte_list_Inl_loop by blast
  then show ?thesis by (rule layout_data_normal_error)
next
  case (Inr r)
  then obtain nb where nb: "to_byte_list normal_map = Inr nb"
    using to_byte_list_Inr_loop by blast
  from assms Inr have rest: "to_byte_loop (shift_map @
      (case altgr_map of None \<Rightarrow> [] | Some a \<Rightarrow> a)) r = Inl e"
    by (simp add: to_byte_loop_append)
  show ?thesis
  proof (cases "to_byte_loop shift_map r")
    case (Inl e')
    with rest have "e' = e" by (simp add: to_byte_loop_append)
    with Inl have "to_byte_list shift_map = Inl e" using to_byte_list_Inl_loop by blast
    with nb show ?thesis by (rule layout_data_shift_error)
  next
    case sr: (Inr r')
    then obtain sb where sb: "to_byte_list shift_map = Inr sb"
      using to_byte_list_Inr_loop by blast
    from rest sr have al: "to_byte_loop (case altgr_map of None \<Rightarrow> [] | Some a \<Rightarrow> a) r' = Inl e"
      by (simp add: to_byte_loop_append)
    then obtain a where a: "altgr_map = Some a" by (cases altgr_map) auto
    with al have "to_byte_list a = Inl e" using to_byte_list_Inl_loop [of a e r'] by simp
    with a have "altgr_bytes altgr_map = Inl e" by (simp add: altgr_bytes_Some)
    with nb sb show ?thesis by (rule layout_data_altgr_error)
  qed
qed

lemma to_byte_loop_fails:
  assumes "elem_byte y = Inl e0"
  shows "\<exists>e. to_byte_loop (xs @ y # ys) acc = Inl e \<and>
           (\<exists>x \<in> set (xs @ [y]). elem_byte x = Inl e) \<and>
           ((\<forall>x \<in> set xs. \<exists>b. elem_byte x = Inr b) \<longrightarrow> e = e0)"
proof (cases "\<forall>x \<in> set xs. \<exists>b. elem_byte x = Inr b")
  case True
  then obtain bs where "map elem_byte xs = map Inr bs" using all_resolve_map by blast
  from to_byte_loop_first_error [OF this assms]
  have "to_byte_loop (xs @ y # ys) acc = Inl e0" .
  with assms show ?thesis by auto
next
  case False
  then have "\<not> (\<exists>r. to_byte_loop xs acc = Inr r)"
    using all_resolve_map [of xs] to_byte_loop_Inr_iff [of xs acc] by blast
  then obtain e where e: "to_byte_loop xs acc = Inl e" by (cases "to_byte_loop xs acc") auto
  then obtain x where "x \<in> set xs" "elem_byte x = Inl e"
    unfolding to_byte_loop_Inl_iff by fastforce
  moreover from e have "to_byte_loop (xs @ y # ys) acc = Inl e"
    by (simp add: to_byte_loop_append)
  ultimately show ?thesis using False by auto
qed

text \<open>
  The call fails with the error of the first entry, in the order normal, shift, altgr, that
  does not resolve: the entries \<open>ps\<close> before it resolve, and it lies at or before any given
  entry that does not resolve.
\<close>

lemma maps_first_failure:
  assumes split: "normal_map @ shift_map @ (case altgr_map of None \<Rightarrow> [] | Some a \<Rightarrow> a) =
            xs @ y # ys"
    and y: "elem_byte y = Inl e0"
  shows "\<exists>e ps z qs.
           create_keyboard_layout w filename name normal_map shift_map altgr_map = (w, Inl e) \<and>
           normal_map @ shift_map @ (case altgr_map of None \<Rightarrow> [] | Some a \<Rightarrow> a) =
             ps @ z # qs \<and>
           (\<forall>x \<in> set ps. \<exists>b. elem_byte x = Inr b) \<and> elem_byte z = Inl e \<and>
           length ps \<le> length xs \<and>
           ((\<forall>x \<in> set xs. \<exists>b. elem_byte x = Inr b) \<longrightarrow> e = e0)"
proof -
  from to_byte_loop_fails [OF y, of xs ys "[]"] obtain e where
    e: "to_byte_loop (xs @ y # ys) [] = Inl e" and
    first: "(\<forall>x \<in> set xs. \<exists>b. elem_byte x = Inr b) \<longrightarrow> e = e0"
    by blast
  from to_byte_loop_Inl_split [OF e] obtain ps z qs bs where
    dec: "xs @ y # ys = ps @ z # qs" and bs: "map elem_byte ps = map Inr bs" and
    z: "elem_byte z = Inl e"
    by blast
  from bs have ps: "\<forall>x \<in> set ps. \<exists>b. elem_byte x = Inr b"
    using all_resolve_map by blast
  have le: "length ps \<le> length xs"
  proof (rule ccontr)
    assume "\<not> length ps \<le> length xs"
    then have lt: "length xs < length ps" by simp
    have "(xs @ y # ys) ! length xs = y" by simp
    with dec have "(ps @ z # qs) ! length xs = y" by simp
    with lt have "ps ! length xs = y" by (simp add: nth_append)
    with lt have "y \<in> set ps" by (metis nth_mem)
    with ps y show False by auto
  qed
  from e split have "layout_data name normal_map shift_map altgr_map = Inl e"
    using layout_data_maps_error [of normal_map shift_map altgr_map "[]" e name] by simp
  then have c: "create_keyboard_layout w filename name normal_map shift_map altgr_map = (w, Inl e)"
    by (rule create_keyboard_layout_error)
  from split dec have "normal_map @ shift_map @ (case altgr_map of None \<Rightarrow> [] | Some a \<Rightarrow> a) =
      ps @ z # qs" by simp
  with c ps z le first show ?thesis by blast
qed

lemma to_byte_list_error_kind:
  assumes "to_byte_list m = Inl e"
  shows "\<exists>x \<in> set m. e = InvalidElement x \<or> e = OutOfRange x"
proof -
  from assms obtain xs x ys where "m = xs @ x # ys" "elem_byte x = Inl e"
    by (auto simp: to_byte_list_Inl_iff)
  with elem_byte_error_kind [of x e] show ?thesis by auto
qed

lemma altgr_bytes_error_kind:
  assumes "altgr_bytes altgr_map = Inl e"
  shows "\<exists>x. e = InvalidElement x \<or> e = OutOfRange x"
proof (cases altgr_map)
  case None
  with assms show ?thesis by (simp add: altgr_bytes_None)
next
  case (Some m)
  with assms have "to_byte_list m = Inl e" by (simp add: altgr_bytes_Some)
  from to_byte_list_error_kind [OF this] show ?thesis by blast
qed

section \<open>The claims\<close>

text \<open>
  C1. For every valid input, that is an ASCII name and maps whose entries all resolve to a
  byte, the encoder succeeds and \<^verbatim>\<open>data\<close> is the concatenation, in this order, of the
  4 bytes of the magic, the 32 bytes of the name field, and the 128 bytes of the normal,
  the shift and the altgr map: 420 bytes, each in \<open>0..255\<close>, whatever the lengths of the
  maps. When the destination can be opened, these bytes are the contents of the file.
\<close>

theorem encode_size_420:
  assumes name: "\<forall>c \<in> set name. c < 128"
    and normal: "\<forall>x \<in> set normal_map. \<exists>b. elem_byte x = Inr b"
    and shift: "\<forall>x \<in> set shift_map. \<exists>b. elem_byte x = Inr b"
    and altgr: "\<forall>m. altgr_map = Some m \<longrightarrow> (\<forall>x \<in> set m. \<exists>b. elem_byte x = Inr b)"
  shows "\<exists>mg nm nb sb ab.
           struct_pack_le_I magic = Inr mg \<and> length mg = 4 \<and>
           name_bytes name = Inr nm \<and> length nm = 32 \<and>
           to_byte_list normal_map = Inr nb \<and> length nb = 128 \<and>
           to_byte_list shift_map = Inr sb \<and> length sb = 128 \<and>
           altgr_bytes altgr_map = Inr ab \<and> length ab = 128 \<and>
           layout_data name normal_map shift_map altgr_map = Inr (mg @ nm @ nb @ sb @ ab) \<and>
           length (mg @ nm @ nb @ sb @ ab) = 420 \<and>
           (\<forall>b \<in> set (mg @ nm @ nb @ sb @ ab). 0 \<le> b \<and> b \<le> 255) \<and>
           (writable w filename \<longrightarrow>
              files (fst (create_keyboard_layout w filename name normal_map shift_map altgr_map))
                filename = Some (mg @ nm @ nb @ sb @ ab) \<and>
              snd (create_keyboard_layout w filename name normal_map shift_map altgr_map) = Inr ())"
proof -
  from normal obtain nb where nb: "to_byte_list normal_map = Inr nb"
    using to_byte_list_total by blast
  from shift obtain sb where sb: "to_byte_list shift_map = Inr sb"
    using to_byte_list_total by blast
  obtain ab where ab: "altgr_bytes altgr_map = Inr ab"
  proof (cases altgr_map)
    case None
    then show ?thesis using that altgr_bytes_None by simp
  next
    case (Some m)
    with altgr have "\<forall>x \<in> set m. \<exists>b. elem_byte x = Inr b" by simp
    then obtain r where "to_byte_list m = Inr r" using to_byte_list_total by blast
    with Some show ?thesis using that altgr_bytes_Some by simp
  qed
  obtain nm where nm: "name_bytes name = Inr nm"
    using name name_bytes_Inr_iff by blast
  let ?mg = "[0x59, 0x4C, 0x42, 0x4B] :: int list"
  let ?d = "?mg @ nm @ nb @ sb @ ab"
  have d: "layout_data name normal_map shift_map altgr_map = Inr ?d"
    by (rule layout_data_success [OF nb sb ab nm])
  have len: "length nm = 32" "length nb = 128" "length sb = 128" "length ab = 128"
    using name_bytes_length [OF nm] to_byte_list_length [OF nb] to_byte_list_length [OF sb]
      altgr_bytes_length [OF ab] by simp_all
  have nm_range: "\<forall>b \<in> set nm. 0 \<le> b \<and> b \<le> 255"
  proof -
    from nm have eq: "nm = map int (take 31 name) @ replicate (32 - length (take 31 name)) 0"
      by (simp add: name_bytes_Inr_iff)
    have "\<forall>c \<in> set (take 31 name). c < 128"
      using name by (meson in_set_takeD)
    then have "\<forall>b \<in> set (map int (take 31 name)). 0 \<le> b \<and> b \<le> 255" by auto
    then show ?thesis by (subst eq) auto
  qed
  have range: "\<forall>b \<in> set ?d. 0 \<le> b \<and> b \<le> 255"
    using nm_range to_byte_list_range [OF nb] to_byte_list_range [OF sb] altgr_bytes_range [OF ab]
    by auto
  have written: "writable w filename \<longrightarrow>
      files (fst (create_keyboard_layout w filename name normal_map shift_map altgr_map))
        filename = Some ?d \<and>
      snd (create_keyboard_layout w filename name normal_map shift_map altgr_map) = Inr ()"
    using create_keyboard_layout_written [OF d] by simp
  have "length ?d = 420" using len by simp
  with struct_pack_magic nm nb sb ab d len range written show ?thesis
    by (intro exI [of _ ?mg] exI [of _ nm] exI [of _ nb] exI [of _ sb] exI [of _ ab]) simp
qed

text \<open>
  At a two-character name, maps of lengths 2 and 1, a one-entry altgr map, and a
  destination that can be opened.
\<close>

theorem encode_size_420_witness:
  "\<exists>d. layout_data [69, 83] [PStr [241], PInt 7] [PStr [65]] (Some [PStr [8364]]) = Inr d \<and>
       length d = 420 \<and>
       files (fst (create_keyboard_layout
         \<lparr>files = Map.empty, writable = (\<lambda>f. True), stdout = []\<rparr>
         [107] [69, 83] [PStr [241], PInt 7] [PStr [65]] (Some [PStr [8364]]))) [107] = Some d"
proof -
  have n: "\<forall>c \<in> set [69, 83 :: nat]. c < 128" by simp
  have a: "\<forall>x \<in> set [PStr [241], PInt 7]. \<exists>b. elem_byte x = Inr b"
    by (simp add: special_chars_def)
  have s: "\<forall>x \<in> set [PStr [65]]. \<exists>b. elem_byte x = Inr b"
    by (simp add: special_chars_def)
  have g: "\<forall>m. Some [PStr [8364]] = Some m \<longrightarrow> (\<forall>x \<in> set m. \<exists>b. elem_byte x = Inr b)"
    by (simp add: special_chars_def)
  from encode_size_420 [OF n a s g] obtain mg nm nb sb ab where
    d: "layout_data [69, 83] [PStr [241], PInt 7] [PStr [65]] (Some [PStr [8364]]) =
          Inr (mg @ nm @ nb @ sb @ ab)" and
    len: "length (mg @ nm @ nb @ sb @ ab) = 420" and
    wr: "writable \<lparr>files = Map.empty, writable = (\<lambda>f. True), stdout = []\<rparr> [107] \<longrightarrow>
          files (fst (create_keyboard_layout
            \<lparr>files = Map.empty, writable = (\<lambda>f. True), stdout = []\<rparr>
            [107] [69, 83] [PStr [241], PInt 7] [PStr [65]] (Some [PStr [8364]]))) [107] =
            Some (mg @ nm @ nb @ sb @ ab) \<and>
          snd (create_keyboard_layout
            \<lparr>files = Map.empty, writable = (\<lambda>f. True), stdout = []\<rparr>
            [107] [69, 83] [PStr [241], PInt 7] [PStr [65]] (Some [PStr [8364]])) = Inr ()"
    by blast
  have "writable \<lparr>files = Map.empty, writable = (\<lambda>f. True), stdout = []\<rparr> [107]"
    by simp
  with wr have "files (fst (create_keyboard_layout
            \<lparr>files = Map.empty, writable = (\<lambda>f. True), stdout = []\<rparr>
            [107] [69, 83] [PStr [241], PInt 7] [PStr [65]] (Some [PStr [8364]]))) [107] =
            Some (mg @ nm @ nb @ sb @ ab)"
    by blast
  with d len show ?thesis by blast
qed



text \<open>
  C3 does not hold as it is stated: the entries are resolved in order, and an
  earlier entry that is not a single character raises first.
\<close>

theorem out_of_range_int_counterexample:
  "layout_data [] [PStr [97, 98], PInt 300] [] None = Inl (InvalidElement (PStr [97, 98])) \<and>
   layout_data [] [PStr [97, 98], PInt 300] [] None \<noteq> Inl (OutOfRange (PInt 300))"
  by (simp add: layout_data_def to_byte_list_def)

text \<open>
  C3. An integer entry outside \<open>0..255\<close> makes its own resolution raise \<open>OutOfRange\<close>. For
  every input that contains such an entry in one of its maps the call fails and leaves the
  world as it was: nothing is written. The error \<open>e\<close> is the one of the first entry \<open>z\<close>, in
  the order normal, shift, altgr, that does not resolve: every entry \<open>ps\<close> before \<open>z\<close>
  resolves, and \<open>z\<close> is that integer or an entry before it. So \<open>e\<close> is \<open>OutOfRange\<close> of that
  integer when every entry before it resolves.
\<close>

theorem out_of_range_int_rejected:
  assumes "normal_map @ shift_map @ (case altgr_map of None \<Rightarrow> [] | Some a \<Rightarrow> a) =
             xs @ PInt n # ys"
    and "n < 0 \<or> 255 < n"
  shows "elem_byte (PInt n) = Inl (OutOfRange (PInt n)) \<and>
         (\<exists>e ps z qs.
            create_keyboard_layout w filename name normal_map shift_map altgr_map = (w, Inl e) \<and>
            normal_map @ shift_map @ (case altgr_map of None \<Rightarrow> [] | Some a \<Rightarrow> a) =
              ps @ z # qs \<and>
            (\<forall>x \<in> set ps. \<exists>b. elem_byte x = Inr b) \<and> elem_byte z = Inl e \<and>
            length ps \<le> length xs \<and>
            ((\<forall>x \<in> set xs. \<exists>b. elem_byte x = Inr b) \<longrightarrow> e = OutOfRange (PInt n)))"
proof -
  from assms(2) have y: "elem_byte (PInt n) = Inl (OutOfRange (PInt n))" by auto
  from maps_first_failure [OF assms(1) y] y show ?thesis by blast
qed

text \<open>At the value 300 as the only entry of the shift map, after a normal map that resolves.\<close>

theorem out_of_range_int_rejected_witness:
  "create_keyboard_layout \<lparr>files = Map.empty, writable = (\<lambda>f. True), stdout = []\<rparr>
     [107] [69, 83] [PInt 7] [PInt 300] None =
   (\<lparr>files = Map.empty, writable = (\<lambda>f. True), stdout = []\<rparr>, Inl (OutOfRange (PInt 300)))"
proof -
  have split: "[PInt 7] @ [PInt 300] @ (case None of None \<Rightarrow> [] | Some a \<Rightarrow> a) =
      [PInt 7] @ PInt 300 # []" by simp
  have range: "(300 :: int) < 0 \<or> 255 < (300 :: int)" by simp
  have before: "\<forall>x \<in> set [PInt 7]. \<exists>b. elem_byte x = Inr b" by simp
  from out_of_range_int_rejected [OF split range] obtain e where
    e: "create_keyboard_layout \<lparr>files = Map.empty, writable = (\<lambda>f. True), stdout = []\<rparr>
          [107] [69, 83] [PInt 7] [PInt 300] None =
        (\<lparr>files = Map.empty, writable = (\<lambda>f. True), stdout = []\<rparr>, Inl e)" and
    first: "(\<forall>x \<in> set [PInt 7]. \<exists>b. elem_byte x = Inr b) \<longrightarrow> e = OutOfRange (PInt 300)"
    by blast
  from first before have "e = OutOfRange (PInt 300)" by (rule mp)
  with e show ?thesis by (simp only:)
qed

text \<open>
  C4. In every output that is produced, bytes 0 to 3 are \<open>0x59, 0x4C, 0x42, 0x4B\<close>: the
  constant \<open>0x4B424C59\<close> with its least significant byte first.
\<close>

theorem magic_little_endian:
  assumes "create_keyboard_layout w filename name normal_map shift_map altgr_map = (w', Inr u)"
  shows "\<exists>d. layout_data name normal_map shift_map altgr_map = Inr d \<and>
           files w' filename = Some d \<and>
           take 4 d = [0x59, 0x4C, 0x42, 0x4B] \<and>
           d ! 0 + 256 * d ! 1 + 65536 * d ! 2 + 16777216 * d ! 3 = 0x4B424C59"
proof -
  from create_keyboard_layout_Inr [OF assms] obtain d where
    d: "layout_data name normal_map shift_map altgr_map = Inr d" and
    w': "w' = w\<lparr>files := (files w)(filename \<mapsto> d),
                  stdout := stdout w @ [(name, filename, length d)]\<rparr>"
    by blast
  from layout_data_regions [OF d] have t: "take 4 d = [0x59, 0x4C, 0x42, 0x4B]"
    and len: "length d = 420" by auto
  have nth: "d ! 0 = take 4 d ! 0" "d ! 1 = take 4 d ! 1" "d ! 2 = take 4 d ! 2"
    "d ! 3 = take 4 d ! 3"
    by simp_all
  have "d ! 0 + 256 * d ! 1 + 65536 * d ! 2 + 16777216 * d ! 3 = 0x4B424C59"
    unfolding nth t by simp
  moreover from w' have "files w' filename = Some d" by simp
  ultimately show ?thesis using d t by blast
qed

text \<open>At a destination that can be opened, in a world with no files.\<close>

theorem magic_little_endian_witness:
  "\<exists>d. files (fst (create_keyboard_layout
            \<lparr>files = Map.empty, writable = (\<lambda>f. True), stdout = []\<rparr>
            [107] [69, 83] [PStr [241], PInt 7] [PStr [65]] None)) [107] = Some d \<and>
       take 4 d = [0x59, 0x4C, 0x42, 0x4B]"
proof -
  let ?w = "\<lparr>files = Map.empty, writable = (\<lambda>f. True), stdout = []\<rparr> :: world"
  let ?r = "create_keyboard_layout ?w [107] [69, 83] [PStr [241], PInt 7] [PStr [65]] None"
  have d: "\<exists>d. layout_data [69, 83] [PStr [241], PInt 7] [PStr [65]] None = Inr d"
    using layout_data_success [OF sample_maps(1) sample_maps(2) altgr_bytes_None sample_name]
    by blast
  then have "?r = (fst ?r, Inr ())"
    by (auto simp: create_keyboard_layout_def)
  from magic_little_endian [OF this] show ?thesis by blast
qed

text \<open>
  C5. For every ASCII name, when the maps resolve, bytes 4 to 35 of the output are the
  name field: the first 31 bytes of the name at most, then a zero terminator, then zeros
  up to 32 bytes. The normal map starts at byte 36 whatever the length of the name; a
  name of 40 characters is stored as its first 31 characters and one zero byte.
\<close>

theorem name_field_layout:
  assumes name: "\<forall>c \<in> set name. c < 128"
    and nb: "to_byte_list normal_map = Inr nb"
    and sb: "to_byte_list shift_map = Inr sb"
    and ab: "altgr_bytes altgr_map = Inr ab"
  shows "\<exists>d. layout_data name normal_map shift_map altgr_map = Inr d \<and>
           take 32 (drop 4 d) =
             map int (take 31 name) @ 0 # replicate (31 - length (take 31 name)) 0 \<and>
           length (map int (take 31 name)) \<le> 31 \<and>
           drop 36 d = nb @ sb @ ab \<and>
           (length name = 40 \<longrightarrow> take 32 (drop 4 d) = map int (take 31 name) @ [0])"
proof -
  define nm where "nm = map int (take 31 name) @ replicate (32 - length (take 31 name)) 0"
  define d where "d = [0x59, 0x4C, 0x42, 0x4B] @ nm @ nb @ sb @ ab"
  from name have nm: "name_bytes name = Inr nm" by (simp add: name_bytes_Inr_iff nm_def)
  have d: "layout_data name normal_map shift_map altgr_map = Inr d"
    unfolding d_def by (rule layout_data_success [OF nb sb ab nm])
  have "length (take 31 name) \<le> 31" by simp
  then have "32 - length (take 31 name) = Suc (31 - length (take 31 name))" by arith
  then have pad: "nm = map int (take 31 name) @ 0 # replicate (31 - length (take 31 name)) 0"
    unfolding nm_def by (simp only: replicate_Suc)
  have len: "length nm = 32" using name_bytes_length [OF nm] .
  have field: "take 32 (drop 4 d) = nm" using len by (simp add: d_def)
  have rest: "drop 36 d = nb @ sb @ ab" using len by (simp add: d_def)
  have short: "length (map int (take 31 name)) \<le> 31" by simp
  have forty: "length name = 40 \<longrightarrow> take 32 (drop 4 d) = map int (take 31 name) @ [0]"
    using field pad by simp
  from d field pad rest short forty show ?thesis by metis
qed

text \<open>At a name of 40 characters \<open>A\<close>.\<close>

theorem name_field_layout_witness:
  "\<exists>d. layout_data (replicate 40 65) [PStr [241], PInt 7] [PStr [65]] None = Inr d \<and>
       take 32 (drop 4 d) = replicate 31 65 @ [0] \<and>
       drop 36 d = ([241, 7] @ replicate 126 0) @ (65 # replicate 127 0) @ replicate 128 0"
proof -
  have n: "\<forall>c \<in> set (replicate 40 (65 :: nat)). c < 128" by simp
  from name_field_layout [OF n sample_maps(1) sample_maps(2) altgr_bytes_None]
  obtain d where d: "layout_data (replicate 40 65) [PStr [241], PInt 7] [PStr [65]] None = Inr d"
    and f: "take 32 (drop 4 d) = map int (take 31 (replicate 40 65)) @
              0 # replicate (31 - length (take 31 (replicate 40 (65 :: nat)))) 0"
    and r: "drop 36 d = ([241, 7] @ replicate 126 0) @ (65 # replicate 127 0) @ replicate 128 0"
    by blast
  from f have "take 32 (drop 4 d) = replicate 31 65 @ [0]" by simp
  with d r show ?thesis by blast
qed

text \<open>
  C6. A one-character entry that is a key of \<^verbatim>\<open>special_chars\<close> resolves to the value the
  table gives it, and that value is the byte stored for it in the region of its map. The
  one-entry normal map \<^verbatim>\<open>['\<close>U+00F1\<^verbatim>\<open>']\<close> gives \<open>0xF1\<close> at offset 36 and 127 zero bytes
  after it.
\<close>

theorem special_char_substituted:
  assumes "special_chars x = Some v"
  shows "elem_byte (PStr x) = Inr v \<and>
         (layout_data name normal_map shift_map altgr_map = Inr d \<and>
          (m, off) \<in> set ([(normal_map, 36), (shift_map, 164)] @
             (case altgr_map of None \<Rightarrow> [] | Some a \<Rightarrow> [(a, 292)])) \<and>
          i < length m \<and> i < 128 \<and> m ! i = PStr x \<longrightarrow> d ! (off + i) = v) \<and>
         (x = [0xF1] \<and> layout_data name [PStr x] shift_map altgr_map = Inr d' \<longrightarrow>
            v = 0xF1 \<and> take 128 (drop 36 d') = 0xF1 # replicate 127 0)"
proof -
  from special_chars_range [OF assms] obtain c where x: "x = [c]"
    by (cases x) auto
  from special_chars_range [OF assms] have "\<not> v > 255" by simp
  with assms x have e: "elem_byte (PStr x) = Inr v" by simp
  have entry: "layout_data name normal_map shift_map altgr_map = Inr d \<and>
          (m, off) \<in> set ([(normal_map, 36), (shift_map, 164)] @
             (case altgr_map of None \<Rightarrow> [] | Some a \<Rightarrow> [(a, 292)])) \<and>
          i < length m \<and> i < 128 \<and> m ! i = PStr x \<longrightarrow> d ! (off + i) = v"
  proof
    assume h: "layout_data name normal_map shift_map altgr_map = Inr d \<and>
          (m, off) \<in> set ([(normal_map, 36), (shift_map, 164)] @
             (case altgr_map of None \<Rightarrow> [] | Some a \<Rightarrow> [(a, 292)])) \<and>
          i < length m \<and> i < 128 \<and> m ! i = PStr x"
    then have "elem_byte (m ! i) = Inr (d ! (off + i))"
      using supplied_map_entry [of name normal_map shift_map altgr_map d m off i] by blast
    with h e show "d ! (off + i) = v" by simp
  qed
  have enye: "x = [0xF1] \<and> layout_data name [PStr x] shift_map altgr_map = Inr d' \<longrightarrow>
            v = 0xF1 \<and> take 128 (drop 36 d') = 0xF1 # replicate 127 0"
  proof
    assume h: "x = [0xF1] \<and> layout_data name [PStr x] shift_map altgr_map = Inr d'"
    with assms have v: "v = 0xF1" by (simp add: special_chars_def)
    from h layout_data_regions [of name "[PStr x]" shift_map altgr_map d']
    have "to_byte_list [PStr x] = Inr (take 128 (drop 36 d'))" by auto
    moreover from e v have "to_byte_list [PStr x] = Inr (0xF1 # replicate 127 0)"
      by (simp add: to_byte_list_def)
    ultimately show "v = 0xF1 \<and> take 128 (drop 36 d') = 0xF1 # replicate 127 0"
      using v by simp
  qed
  from e entry enye show ?thesis by blast
qed

text \<open>
  At the euro sign, whose table value \<open>0x80\<close> differs from its code point \<open>0x20AC\<close>,
  and at the one-entry normal map of the claim.
\<close>

theorem special_char_substituted_witness:
  "special_chars [0x20AC] = Some 0x80 \<and> elem_byte (PStr [0x20AC]) = Inr 0x80 \<and>
   special_chars [0xF1] = Some 0xF1 \<and>
   (\<exists>d. layout_data [69, 83] [PStr [0xF1]] [PStr [65]] None = Inr d \<and>
        d ! 36 = 0xF1 \<and> take 128 (drop 36 d) = 0xF1 # replicate 127 0)"
proof -
  have euro: "special_chars [0x20AC] = Some 0x80" by (simp add: special_chars_def)
  have enye: "special_chars [0xF1] = Some 0xF1" by (simp add: special_chars_def)
  have n: "to_byte_list [PStr [0xF1]] = Inr (0xF1 # replicate 127 0)"
    by (simp add: to_byte_list_def special_chars_def)
  from layout_data_success [OF n sample_maps(2) altgr_bytes_None sample_name]
  obtain d where d: "layout_data [69, 83] [PStr [0xF1]] [PStr [65]] None = Inr d"
    by blast
  have m: "([PStr [0xF1]], 36) \<in> set ([([PStr [0xF1]], 36), ([PStr [65]], 164)] @
             (case None of None \<Rightarrow> [] | Some a \<Rightarrow> [(a, 292)]))"
    by simp
  from special_char_substituted [OF enye, of "[69, 83]" "[PStr [0xF1]]" "[PStr [65]]" None d
      "[PStr [0xF1]]" 36 0 d] d m
  have "d ! 36 = 0xF1" and "take 128 (drop 36 d) = 0xF1 # replicate 127 0" by simp_all
  with special_char_substituted [OF euro] euro enye d show ?thesis by blast
qed

text \<open>
  C7 does not hold as it is stated: an out-of-range integer before the invalid
  entry raises first.
\<close>

theorem invalid_element_counterexample:
  "layout_data [] [PInt 300, PStr [97, 98]] [] None = Inl (OutOfRange (PInt 300)) \<and>
   layout_data [] [PInt 300, PStr [97, 98]] [] None \<noteq> Inl (InvalidElement (PStr [97, 98]))"
  by (simp add: layout_data_def to_byte_list_def)

text \<open>
  C7. An entry that is neither a string nor an integer, or a string whose length is not 1,
  makes its own resolution raise \<open>InvalidElement\<close>. For every input that contains such an
  entry in one of its maps the call fails and leaves the world as it was. The error \<open>e\<close> is
  the one of the first entry \<open>z\<close>, in the order normal, shift, altgr, that does not resolve:
  every entry \<open>ps\<close> before \<open>z\<close> resolves, and \<open>z\<close> is that entry or an entry before it. So
  \<open>e\<close> is \<open>InvalidElement\<close> of that entry when every entry before it resolves.
\<close>

theorem invalid_element_rejected:
  assumes "normal_map @ shift_map @ (case altgr_map of None \<Rightarrow> [] | Some a \<Rightarrow> a) =
             xs @ y # ys"
    and "y = POther \<or> (\<exists>s. y = PStr s \<and> length s \<noteq> 1)"
  shows "elem_byte y = Inl (InvalidElement y) \<and>
         (\<exists>e ps z qs.
            create_keyboard_layout w filename name normal_map shift_map altgr_map = (w, Inl e) \<and>
            normal_map @ shift_map @ (case altgr_map of None \<Rightarrow> [] | Some a \<Rightarrow> a) =
              ps @ z # qs \<and>
            (\<forall>x \<in> set ps. \<exists>b. elem_byte x = Inr b) \<and> elem_byte z = Inl e \<and>
            length ps \<le> length xs \<and>
            ((\<forall>x \<in> set xs. \<exists>b. elem_byte x = Inr b) \<longrightarrow> e = InvalidElement y))"
proof -
  from assms(2) have y: "elem_byte y = Inl (InvalidElement y)"
  proof
    assume "y = POther"
    then show ?thesis by simp
  next
    assume "\<exists>s. y = PStr s \<and> length s \<noteq> 1"
    then obtain s where s: "y = PStr s" "length s \<noteq> 1" by blast
    then have "\<nexists>c. s = [c]" by auto
    with s(1) show ?thesis by (cases s rule: list.exhaust; simp split: list.splits)
  qed
  from maps_first_failure [OF assms(1) y] y show ?thesis by blast
qed

text \<open>At the two-character string \<^verbatim>\<open>'ab'\<close> as the second entry of the altgr map.\<close>

theorem invalid_element_rejected_witness:
  "create_keyboard_layout \<lparr>files = Map.empty, writable = (\<lambda>f. True), stdout = []\<rparr>
     [107] [69, 83] [PInt 7] [] (Some [PStr [65], PStr [97, 98]]) =
   (\<lparr>files = Map.empty, writable = (\<lambda>f. True), stdout = []\<rparr>,
    Inl (InvalidElement (PStr [97, 98])))"
proof -
  have split: "[PInt 7] @ [] @ (case Some [PStr [65], PStr [97, 98]] of None \<Rightarrow> [] | Some a \<Rightarrow> a) =
      [PInt 7, PStr [65]] @ PStr [97, 98] # []" by simp
  have bad: "PStr [97, 98] = POther \<or> (\<exists>s. PStr [97, 98] = PStr s \<and> length s \<noteq> 1)" by simp
  have before: "\<forall>x \<in> set [PInt 7, PStr [65]]. \<exists>b. elem_byte x = Inr b"
    by (simp add: special_chars_def)
  from invalid_element_rejected [OF split bad] obtain e where
    e: "create_keyboard_layout \<lparr>files = Map.empty, writable = (\<lambda>f. True), stdout = []\<rparr>
          [107] [69, 83] [PInt 7] [] (Some [PStr [65], PStr [97, 98]]) =
        (\<lparr>files = Map.empty, writable = (\<lambda>f. True), stdout = []\<rparr>, Inl e)" and
    first: "(\<forall>x \<in> set [PInt 7, PStr [65]]. \<exists>b. elem_byte x = Inr b) \<longrightarrow>
              e = InvalidElement (PStr [97, 98])"
    by blast
  from first before have "e = InvalidElement (PStr [97, 98])" by (rule mp)
  with e show ?thesis by (simp only:)
qed

text \<open>
  C8. When the altgr map is omitted (\<^verbatim>\<open>None\<close>), bytes 292 to 419 of the output, its last
  128 bytes, are all zero.
\<close>

theorem altgr_omitted_zero:
  assumes "layout_data name normal_map shift_map None = Inr d"
  shows "length d = 420 \<and> drop 292 d = replicate 128 0 \<and>
         (\<forall>i. 292 \<le> i \<and> i \<le> 419 \<longrightarrow> d ! i = 0)"
proof -
  from layout_data_regions [OF assms] have len: "length d = 420"
    and ab: "altgr_bytes None = Inr (drop 292 d)" by auto
  from ab have z: "drop 292 d = replicate 128 0" by (simp add: altgr_bytes_None)
  have "\<forall>i. 292 \<le> i \<and> i \<le> 419 \<longrightarrow> d ! i = 0"
  proof (intro allI impI)
    fix i :: nat assume i: "292 \<le> i \<and> i \<le> 419"
    then have "d ! i = drop 292 d ! (i - 292)" using len by simp
    also have "\<dots> = 0"
    proof -
      from i have "i - 292 < 128" by arith
      then show ?thesis unfolding z by (rule nth_replicate)
    qed
    finally show "d ! i = 0" .
  qed
  with len z show ?thesis by simp
qed

theorem altgr_omitted_zero_witness:
  "\<exists>d. layout_data [69, 83] [PStr [241], PInt 7] [PStr [65]] None = Inr d \<and>
       drop 292 d = replicate 128 0"
proof -
  from layout_data_success [OF sample_maps(1) sample_maps(2) altgr_bytes_None sample_name]
  obtain d where d: "layout_data [69, 83] [PStr [241], PInt 7] [PStr [65]] None = Inr d"
    by blast
  from altgr_omitted_zero [OF d] d show ?thesis by blast
qed

text \<open>
  C9 does not hold as it is stated: the maps are resolved in the order normal, shift,
  altgr, so an entry of an earlier map that does not resolve raises first, and the call
  then fails with that error, not with the one of the entry at index 128.
\<close>

theorem resolution_before_truncation_counterexample:
  "layout_data [] [PStr [97, 98]] (replicate 128 (PInt 0) @ [PInt 300]) None =
     Inl (InvalidElement (PStr [97, 98])) \<and>
   elem_byte ((replicate 128 (PInt 0) @ [PInt 300]) ! 128) = Inl (OutOfRange (PInt 300)) \<and>
   layout_data [] [PStr [97, 98]] (replicate 128 (PInt 0) @ [PInt 300]) None \<noteq>
     Inl (OutOfRange (PInt 300))"
proof -
  have n: "to_byte_list [PStr [97, 98]] = Inl (InvalidElement (PStr [97, 98]))"
    by (simp add: to_byte_list_def)
  have d: "layout_data [] [PStr [97, 98]] (replicate 128 (PInt 0) @ [PInt 300]) None =
      Inl (InvalidElement (PStr [97, 98]))"
    by (rule layout_data_normal_error [OF n])
  have "(replicate 128 (PInt 0) @ [PInt 300]) ! length (replicate 128 (PInt 0)) = PInt 300"
    by (rule nth_append_length)
  then have "(replicate 128 (PInt 0) @ [PInt 300]) ! 128 = PInt 300"
    by (simp only: length_replicate)
  then have e: "elem_byte ((replicate 128 (PInt 0) @ [PInt 300]) ! 128) =
      Inl (OutOfRange (PInt 300))"
    by simp
  from d have "layout_data [] [PStr [97, 98]] (replicate 128 (PInt 0) @ [PInt 300]) None \<noteq>
      Inl (OutOfRange (PInt 300))"
    by simp
  with d e show ?thesis by (intro conjI)
qed

text \<open>
  C9. Every entry of every supplied map is resolved before the map is cut to 128 bytes.
  When entry \<open>j\<close> of a supplied map \<open>m\<close>, with \<open>j \<ge> 128\<close>, does not resolve, the call fails
  and leaves the world as it was: the entry is not dropped silently. The error \<open>e\<close> is the
  one of the first entry \<open>z\<close>, in the order normal, shift, altgr, that does not resolve;
  \<open>z\<close> is entry \<open>j\<close> of \<open>m\<close> or an entry before it. So \<open>e\<close> is the error of entry \<open>j\<close> when
  the entries \<open>pre\<close> of the maps before \<open>m\<close> and the entries of \<open>m\<close> before \<open>j\<close> resolve.
\<close>

theorem resolution_before_truncation:
  assumes pm: "(pre, m) \<in> set ([([], normal_map), (normal_map, shift_map)] @
                 (case altgr_map of None \<Rightarrow> [] | Some a \<Rightarrow> [(normal_map @ shift_map, a)]))"
    and j: "128 \<le> j" "j < length m"
    and e0: "elem_byte (m ! j) = Inl e0"
  shows "128 < length m \<and>
         (\<exists>e ps z qs.
            create_keyboard_layout w filename name normal_map shift_map altgr_map = (w, Inl e) \<and>
            normal_map @ shift_map @ (case altgr_map of None \<Rightarrow> [] | Some a \<Rightarrow> a) =
              ps @ z # qs \<and>
            (\<forall>x \<in> set ps. \<exists>b. elem_byte x = Inr b) \<and> elem_byte z = Inl e \<and>
            length ps \<le> length pre + j \<and>
            ((\<forall>x \<in> set (pre @ take j m). \<exists>b. elem_byte x = Inr b) \<longrightarrow>
               e = e0 \<and> to_byte_list m = Inl e0))"
proof -
  from pm obtain post where
    all: "normal_map @ shift_map @ (case altgr_map of None \<Rightarrow> [] | Some a \<Rightarrow> a) =
            pre @ m @ post"
    by (auto split: option.splits)
  from j(2) have m: "m = take j m @ m ! j # drop (Suc j) m" by (rule id_take_nth_drop)
  have "pre @ m @ post = (pre @ take j m) @ m ! j # (drop (Suc j) m @ post)"
    by (subst m) simp
  with all have split:
    "normal_map @ shift_map @ (case altgr_map of None \<Rightarrow> [] | Some a \<Rightarrow> a) =
       (pre @ take j m) @ m ! j # (drop (Suc j) m @ post)"
    by simp
  from j(2) have len: "length (pre @ take j m) = length pre + j" by simp
  from maps_first_failure [OF split e0, of w filename name] obtain e ps z qs where
    c: "create_keyboard_layout w filename name normal_map shift_map altgr_map = (w, Inl e)" and
    dec: "normal_map @ shift_map @ (case altgr_map of None \<Rightarrow> [] | Some a \<Rightarrow> a) = ps @ z # qs" and
    ps: "\<forall>x \<in> set ps. \<exists>b. elem_byte x = Inr b" and z: "elem_byte z = Inl e" and
    le: "length ps \<le> length (pre @ take j m)" and
    first: "(\<forall>x \<in> set (pre @ take j m). \<exists>b. elem_byte x = Inr b) \<longrightarrow> e = e0"
    by blast
  have own: "(\<forall>x \<in> set (pre @ take j m). \<exists>b. elem_byte x = Inr b) \<longrightarrow> to_byte_list m = Inl e0"
  proof
    assume "\<forall>x \<in> set (pre @ take j m). \<exists>b. elem_byte x = Inr b"
    then have "\<forall>x \<in> set (take j m). \<exists>b. elem_byte x = Inr b" by simp
    then obtain bs where bs: "map elem_byte (take j m) = map Inr bs"
      using all_resolve_map by blast
    from m bs e0 show "to_byte_list m = Inl e0"
      unfolding to_byte_list_Inl_iff by blast
  qed
  from le len have le': "length ps \<le> length pre + j" by simp
  from j have "128 < length m" by simp
  with c dec ps z le' first own show ?thesis by blast
qed

text \<open>At a shift map of 129 entries whose last entry, at index 128, is the integer 300.\<close>

theorem resolution_before_truncation_witness:
  "create_keyboard_layout \<lparr>files = Map.empty, writable = (\<lambda>f. True), stdout = []\<rparr>
     [107] [69, 83] [PInt 7] (replicate 128 (PInt 0) @ [PInt 300]) None =
   (\<lparr>files = Map.empty, writable = (\<lambda>f. True), stdout = []\<rparr>, Inl (OutOfRange (PInt 300))) \<and>
   to_byte_list (replicate 128 (PInt 0) @ [PInt 300]) = Inl (OutOfRange (PInt 300))"
proof -
  define m where "m = replicate 128 (PInt 0) @ [PInt 300]"
  have len: "length m = 129" by (simp add: m_def)
  have pm: "([PInt 7], m) \<in> set ([([], [PInt 7]), ([PInt 7], m)] @
      (case None of None \<Rightarrow> [] | Some a \<Rightarrow> [([PInt 7] @ m, a)]))"
    by simp
  have j: "(128 :: nat) \<le> 128" "128 < length m" using len by simp_all
  have "m ! length (replicate 128 (PInt 0)) = PInt 300"
    unfolding m_def by (rule nth_append_length)
  then have "m ! 128 = PInt 300" by (simp only: length_replicate)
  then have e0: "elem_byte (m ! 128) = Inl (OutOfRange (PInt 300))" by simp
  have "take (length (replicate 128 (PInt 0))) m = replicate 128 (PInt 0)"
    unfolding m_def by (rule append_eq_conv_conj [THEN iffD1, THEN conjunct1, symmetric]) (rule refl)
  then have tk: "take 128 m = replicate 128 (PInt 0)" by (simp only: length_replicate)
  have before: "\<forall>x \<in> set ([PInt 7] @ take 128 m). \<exists>b. elem_byte x = Inr b"
    unfolding tk by (auto simp: set_replicate_conv_if)
  note r = resolution_before_truncation [OF pm j e0,
      of "\<lparr>files = Map.empty, writable = (\<lambda>f. True), stdout = []\<rparr>" "[107]" "[69, 83]"]
  from r [THEN conjunct2] obtain e ps z qs where
    all: "create_keyboard_layout \<lparr>files = Map.empty, writable = (\<lambda>f. True), stdout = []\<rparr>
          [107] [69, 83] [PInt 7] m None =
        (\<lparr>files = Map.empty, writable = (\<lambda>f. True), stdout = []\<rparr>, Inl e) \<and>
       [PInt 7] @ m @ (case None of None \<Rightarrow> [] | Some a \<Rightarrow> a) = ps @ z # qs \<and>
       (\<forall>x \<in> set ps. \<exists>b. elem_byte x = Inr b) \<and> elem_byte z = Inl e \<and>
       length ps \<le> length [PInt 7] + 128 \<and>
       ((\<forall>x \<in> set ([PInt 7] @ take 128 m). \<exists>b. elem_byte x = Inr b) \<longrightarrow>
              e = OutOfRange (PInt 300) \<and> to_byte_list m = Inl (OutOfRange (PInt 300)))"
    by (elim exE)
  from all have c: "create_keyboard_layout
          \<lparr>files = Map.empty, writable = (\<lambda>f. True), stdout = []\<rparr>
          [107] [69, 83] [PInt 7] m None =
        (\<lparr>files = Map.empty, writable = (\<lambda>f. True), stdout = []\<rparr>, Inl e)"
    by (rule conjunct1)
  from all have first: "(\<forall>x \<in> set ([PInt 7] @ take 128 m). \<exists>b. elem_byte x = Inr b) \<longrightarrow>
              e = OutOfRange (PInt 300) \<and> to_byte_list m = Inl (OutOfRange (PInt 300))"
    by (elim conjE)
  from first before
  have "e = OutOfRange (PInt 300) \<and> to_byte_list m = Inl (OutOfRange (PInt 300))"
    by (rule mp)
  with c show ?thesis unfolding m_def by (simp only:)
qed

text \<open>
  C10 does not hold as it is stated: the maps are resolved before the name is
  encoded, so an entry that does not resolve raises first.
\<close>

theorem non_ascii_name_counterexample:
  "layout_data [241] [PInt 300] [] None = Inl (OutOfRange (PInt 300)) \<and>
   layout_data [241] [PInt 300] [] None \<noteq> Inl NameEncodingError"
  by (simp add: layout_data_def to_byte_list_def)

text \<open>
  C10. The name is encoded whole, before it is cut to 31 bytes: a code point above 127 at
  any position, also at position 31 or later, makes \<^verbatim>\<open>name.encode('ascii')\<close> raise. For
  every such name the call fails and leaves the world as it was. The error is the name
  encoding error exactly when the three maps resolve, since they are resolved first.
\<close>

theorem non_ascii_name_rejected:
  assumes "c \<in> set name" and "128 \<le> c"
  shows "encode_ascii name = Inl NameEncodingError \<and>
         (\<exists>e. create_keyboard_layout w filename name normal_map shift_map altgr_map = (w, Inl e) \<and>
              (e = NameEncodingError \<longleftrightarrow>
                 (\<exists>nb sb ab. to_byte_list normal_map = Inr nb \<and>
                    to_byte_list shift_map = Inr sb \<and> altgr_bytes altgr_map = Inr ab)))"
proof -
  from assms have "\<not> (\<forall>c \<in> set name. c < 128)" by (auto simp: not_less)
  then have enc: "encode_ascii name = Inl NameEncodingError"
    by (simp add: encode_ascii_def list_all_iff)
  from assms have nm: "name_bytes name = Inl NameEncodingError"
    by (auto simp: name_bytes_Inl_iff)
  have "\<exists>e. layout_data name normal_map shift_map altgr_map = Inl e \<and>
           (e = NameEncodingError \<longleftrightarrow>
              (\<exists>nb sb ab. to_byte_list normal_map = Inr nb \<and>
                 to_byte_list shift_map = Inr sb \<and> altgr_bytes altgr_map = Inr ab))"
  proof (cases "to_byte_list normal_map")
    case (Inl e)
    from to_byte_list_error_kind [OF Inl] have "e \<noteq> NameEncodingError" by auto
    with Inl layout_data_normal_error [OF Inl] show ?thesis by auto
  next
    case nb: (Inr nb)
    show ?thesis
    proof (cases "to_byte_list shift_map")
      case (Inl e)
      from to_byte_list_error_kind [OF Inl] have "e \<noteq> NameEncodingError" by auto
      with Inl layout_data_shift_error [OF nb Inl] show ?thesis by auto
    next
      case sb: (Inr sb)
      show ?thesis
      proof (cases "altgr_bytes altgr_map")
        case (Inl e)
        from altgr_bytes_error_kind [OF Inl] have "e \<noteq> NameEncodingError" by auto
        with Inl layout_data_altgr_error [OF nb sb Inl] show ?thesis by auto
      next
        case ab: (Inr ab)
        from layout_data_name_error [OF nb sb ab nm] nb sb ab show ?thesis by auto
      qed
    qed
  qed
  then obtain e where e: "layout_data name normal_map shift_map altgr_map = Inl e" and
    k: "e = NameEncodingError \<longleftrightarrow>
          (\<exists>nb sb ab. to_byte_list normal_map = Inr nb \<and>
             to_byte_list shift_map = Inr sb \<and> altgr_bytes altgr_map = Inr ab)"
    by blast
  from create_keyboard_layout_error [OF e] enc k show ?thesis by blast
qed

text \<open>At a name of 40 characters whose only non-ASCII character is at position 35.\<close>

theorem non_ascii_name_rejected_witness:
  "create_keyboard_layout \<lparr>files = Map.empty, writable = (\<lambda>f. True), stdout = []\<rparr>
     [107] (replicate 35 65 @ [241] @ replicate 4 65) [PStr [241], PInt 7] [PStr [65]] None =
   (\<lparr>files = Map.empty, writable = (\<lambda>f. True), stdout = []\<rparr>, Inl NameEncodingError)"
proof -
  have c: "241 \<in> set (replicate 35 65 @ [241] @ replicate 4 (65 :: nat))" by simp
  have big: "(128 :: nat) \<le> 241" by simp
  have maps: "\<exists>nb sb ab. to_byte_list [PStr [241], PInt 7] = Inr nb \<and>
      to_byte_list [PStr [65]] = Inr sb \<and> altgr_bytes None = Inr ab"
    using sample_maps(1) sample_maps(2) altgr_bytes_None by blast
  from non_ascii_name_rejected [OF c big] obtain e where
    e: "create_keyboard_layout \<lparr>files = Map.empty, writable = (\<lambda>f. True), stdout = []\<rparr>
          [107] (replicate 35 65 @ [241] @ replicate 4 65) [PStr [241], PInt 7] [PStr [65]] None =
        (\<lparr>files = Map.empty, writable = (\<lambda>f. True), stdout = []\<rparr>, Inl e)" and
    k: "e = NameEncodingError \<longleftrightarrow>
          (\<exists>nb sb ab. to_byte_list [PStr [241], PInt 7] = Inr nb \<and>
             to_byte_list [PStr [65]] = Inr sb \<and> altgr_bytes None = Inr ab)"
    by blast
  from k maps have "e = NameEncodingError" by (rule iffD2)
  with e show ?thesis by (simp only:)
qed

end
